theory Spec2Isabelle
  imports Complex_Main "HOL-Library.Char_ord" "HOL-Library.List_Lexorder"
begin

section \<open>Data model\<close>

text \<open>
  The tutor planner keeps its sessions in the global array \<^verbatim>\<open>classes\<close> of \<^verbatim>\<open>app.js\<close>.
  A session is a plain JavaScript object. Absent properties are \<open>None\<close> (for strings)
  or \<open>False\<close> (for flags, which the code only ever tests for truthiness). Times stay the
  \<^verbatim>\<open>HH:MM\<close> strings of the source, and are compared as the source compares them: with
  the order on strings (code unit by code unit, a proper prefix being smaller).

  Suggested slots are objects with just \<^verbatim>\<open>start\<close> and \<^verbatim>\<open>end\<close>; \<^verbatim>\<open>timesOverlap\<close> is applied
  to sessions and could be applied to slots alike, so sessions extend the record of the two
  time fields. The field \<^verbatim>\<open>end\<close> is called \<open>endt\<close> here.
\<close>

record timed =
  start :: string
  endt :: string

record session = timed +
  student :: string
  day :: string
  date :: "string option"
  cancelled :: bool
  cancelReason :: "string option"
  cancelledAt :: "string option"
  customCancelReason :: "string option"
  pendingConfirmation :: bool
  pendingSince :: "string option"
  allowedClash :: bool
  completedDate :: "string option"

text \<open>JavaScript truthiness of an optional string: absent and the empty string are falsy.\<close>

definition truthy :: "string option \<Rightarrow> bool" where
  "truthy v = (case v of None \<Rightarrow> False | Some s \<Rightarrow> s \<noteq> [])"

definition DAYS :: "string list" where
  "DAYS = [''Monday'', ''Tuesday'', ''Wednesday'', ''Thursday'', ''Friday'', ''Saturday'', ''Sunday'']"

text \<open>\<^verbatim>\<open>WORKING_HOURS = { start: 8, end: 20 }\<close>\<close>

definition WORKING_HOURS_start :: nat where
  "WORKING_HOURS_start = 8"

definition WORKING_HOURS_end :: nat where
  "WORKING_HOURS_end = 20"

section \<open>Time arithmetic\<close>

definition is_digit :: "char \<Rightarrow> bool" where
  "is_digit c \<longleftrightarrow> CHR ''0'' \<le> c \<and> c \<le> CHR ''9''"

definition digit_val :: "char \<Rightarrow> nat" where
  "digit_val c = of_char c - 48"

definition digit_char :: "nat \<Rightarrow> char" where
  "digit_char n = char_of (48 + n)"

text \<open>\<^verbatim>\<open>s.split(sep)\<close> for a separator of one character.\<close>

fun split_on :: "char \<Rightarrow> string \<Rightarrow> string list" where
  "split_on sep [] = [[]]"
| "split_on sep (c # cs) =
     (if c = sep then [] # split_on sep cs
      else (case split_on sep cs of [] \<Rightarrow> [[c]] | p # ps \<Rightarrow> (c # p) # ps))"

text \<open>
  \<^verbatim>\<open>Number(s)\<close> on the strings the planner stores: a run of decimal digits is its value
  (the empty string is 0, as in JavaScript). \<open>None\<close> stands for \<^verbatim>\<open>NaN\<close>, and for every
  other string (signed, fractional, padded with blanks), whose value is not modelled.
\<close>

definition Number :: "string \<Rightarrow> nat option" where
  "Number s = (if list_all is_digit s
     then Some (foldl (\<lambda>n c. 10 * n + digit_val c) 0 s) else None)"

text \<open>
  \<^verbatim>\<open>const [h, m] = time.split(":").map(Number)\<close>: the first two parts; a missing part is
  \<^verbatim>\<open>undefined\<close> and makes the arithmetic that follows \<^verbatim>\<open>NaN\<close>.
\<close>

definition parse_hm :: "string \<Rightarrow> (nat \<times> nat) option" where
  "parse_hm t = (case map Number (split_on CHR '':'' t) of
       Some h # Some m # _ \<Rightarrow> Some (h, m)
     | _ \<Rightarrow> None)"

text \<open>\<^verbatim>\<open>String(n)\<close> for a natural number, and \<^verbatim>\<open>.padStart(2, '0')\<close>.\<close>

fun string_of_nat :: "nat \<Rightarrow> string" where
  "string_of_nat n =
     (if n < 10 then [digit_char n] else string_of_nat (n div 10) @ [digit_char (n mod 10)])"

definition padStart2 :: "string \<Rightarrow> string" where
  "padStart2 s = replicate (2 - length s) CHR ''0'' @ s"

definition hhmm :: "nat \<Rightarrow> nat \<Rightarrow> string" where
  "hhmm h m = padStart2 (string_of_nat h) @ '':'' @ padStart2 (string_of_nat m)"

text \<open>
  \<^verbatim>\<open>addMinutesToTime(time, minutes)\<close>, for the non-negative durations the interface
  selects. On a time that does not parse both numbers are \<^verbatim>\<open>NaN\<close>.
\<close>

definition addMinutesToTime :: "string \<Rightarrow> nat \<Rightarrow> string" where
  "addMinutesToTime time minutes = (case parse_hm time of
       None \<Rightarrow> ''NaN:NaN''
     | Some (h, m) \<Rightarrow>
         (let totalMinutes = h * 60 + m + minutes;
              newH = (totalMinutes div 60) mod 24;
              newM = totalMinutes mod 60
          in hhmm newH newM))"

text \<open>\<^verbatim>\<open>getMinutesBetween(start, end)\<close>; \<open>None\<close> is \<^verbatim>\<open>NaN\<close>.\<close>

definition getMinutesBetween :: "string \<Rightarrow> string \<Rightarrow> int option" where
  "getMinutesBetween s e = (case (parse_hm s, parse_hm e) of
       (Some (sh, sm), Some (eh, em)) \<Rightarrow> Some (int (eh * 60 + em) - int (sh * 60 + sm))
     | _ \<Rightarrow> None)"

text \<open>
  A well-formed wall-clock time: the five characters \<^verbatim>\<open>HH:MM\<close> of an hour below 24 and a
  minute below 60. This is what an \<^verbatim>\<open><input type="time">\<close> delivers.
\<close>

definition wf_time :: "string \<Rightarrow> bool" where
  "wf_time t = (case parse_hm t of
       None \<Rightarrow> False
     | Some (h, m) \<Rightarrow> h < 24 \<and> m < 60 \<and> t = hhmm h m)"


text \<open>\<^verbatim>\<open>timesOverlap(a, b)\<close>: string comparison of the two pairs of times.\<close>

definition timesOverlap :: "'a timed_scheme \<Rightarrow> 'b timed_scheme \<Rightarrow> bool" where
  "timesOverlap a b \<longleftrightarrow> start a < endt b \<and> start b < endt a"

section \<open>Application state\<close>

text \<open>
  The module-level variables of \<^verbatim>\<open>app.js\<close> that the scheduling and billing core reads or
  writes. Every function below that touches a global takes or returns this record.
  \<^verbatim>\<open>editingIndex\<close> is \<^verbatim>\<open>null\<close> (\<open>None\<close>) or a position in \<^verbatim>\<open>classes\<close>. An absent entry of
  \<^verbatim>\<open>studentRates\<close> or \<^verbatim>\<open>paymentStatus\<close> is \<open>None\<close>.
\<close>

record app =
  classes :: "session list"
  editingIndex :: "nat option"
  selectedDuration :: nat
  allowClashOverride :: bool
  studentRates :: "string \<rightharpoonup> int"
  paymentStatus :: "string \<rightharpoonup> bool"
  defaultRate :: int

text \<open>What a handler shows to the user when it returns.\<close>

datatype notice =
    Alert string
  | Toast string
  | FormClashWarning
  | Saved
  | Ignored
  | TypeError

section \<open>Clash detection\<close>

text \<open>
  \<^verbatim>\<open>hasClash(newClass, excludeIndex = null)\<close>. \<^verbatim>\<open>classes.some((c, i) => ...)\<close> visits the
  sessions with their indices; \<open>clashes_with\<close> is the body of the callback.
\<close>

definition clashes_with :: "session \<Rightarrow> nat option \<Rightarrow> nat \<times> session \<Rightarrow> bool" where
  "clashes_with newClass excludeIndex ic = (case ic of (i, c) \<Rightarrow>
     if excludeIndex \<noteq> None \<and> Some i = excludeIndex then False
     else if cancelled c then False
     else (let sameDay = (if truthy (date newClass) then date c = date newClass
                          else day c = day newClass)
           in sameDay \<and> timesOverlap newClass c))"

definition hasClash :: "app \<Rightarrow> session \<Rightarrow> nat option \<Rightarrow> bool" where
  "hasClash s newClass excludeIndex =
     list_ex (clashes_with newClass excludeIndex) (enumerate 0 (classes s))"

section \<open>Availability finder\<close>

text \<open>\<^verbatim>\<open>`${String(hour).padStart(2, '0')}:00`\<close>\<close>

definition hour_mark :: "nat \<Rightarrow> string" where
  "hour_mark h = padStart2 (string_of_nat h) @ '':00''"

text \<open>
  The test that \<^verbatim>\<open>findAvailableSlots\<close> makes before each session and once more before the
  end of the working day: when the cursor is before \<open>bound\<close> and the gap holds the wanted
  duration, a slot of that duration is pushed. A \<^verbatim>\<open>NaN\<close> gap fails the comparison.
\<close>

definition push_gap :: "nat \<Rightarrow> string \<Rightarrow> string \<Rightarrow> timed list \<Rightarrow> timed list" where
  "push_gap duration currentStart bound slots =
     (if currentStart < bound then
        (case getMinutesBetween currentStart bound of
           None \<Rightarrow> slots
         | Some gapMinutes \<Rightarrow>
             if gapMinutes \<ge> int duration
             then slots @ [\<lparr>start = currentStart, endt = addMinutesToTime currentStart duration\<rparr>]
             else slots)
      else slots)"

text \<open>One round of the \<^verbatim>\<open>for (const cls of relevantClasses)\<close> loop, on the pair
  of the cursor \<^verbatim>\<open>currentStart\<close> and the array \<^verbatim>\<open>slots\<close>.\<close>

definition sweep_step :: "nat \<Rightarrow> string \<times> timed list \<Rightarrow> session \<Rightarrow> string \<times> timed list" where
  "sweep_step duration st cls = (case st of (currentStart, slots) \<Rightarrow>
     (if endt cls > currentStart then endt cls else currentStart,
      push_gap duration currentStart (start cls) slots))"

text \<open>
  \<^verbatim>\<open>findAvailableSlots(day)\<close>, with the sessions that its loop visits first
  (\<^verbatim>\<open>dayClasses\<close> and \<^verbatim>\<open>relevantClasses\<close>). The sessions keep their positions in
  \<^verbatim>\<open>classes\<close> while they are filtered and sorted, because \<^verbatim>\<open>classes.indexOf(c)\<close> finds a
  session by identity.
  \<^verbatim>\<open>Array.prototype.sort\<close> is stable, as is \<open>sort_key\<close>; the comparator is
  \<^verbatim>\<open>a.start.localeCompare(b.start)\<close>, which on digits and colons orders as the string
  order does.
\<close>

definition relevantClasses :: "app \<Rightarrow> string \<Rightarrow> (nat \<times> session) list" where
  "relevantClasses s d =
     (let dayClasses = sort_key (\<lambda>ic. start (snd ic))
                         (filter (\<lambda>ic. day (snd ic) = d) (enumerate 0 (classes s)))
      in case editingIndex s of
           None \<Rightarrow> dayClasses
         | Some e \<Rightarrow> filter (\<lambda>ic. fst ic \<noteq> e) dayClasses)"

definition findAvailableSlots :: "app \<Rightarrow> string \<Rightarrow> timed list" where
  "findAvailableSlots s d =
     (let dayEnd = hour_mark WORKING_HOURS_end;
          st = foldl (sweep_step (selectedDuration s))
                 (hour_mark WORKING_HOURS_start, []) (map snd (relevantClasses s d))
      in take 4 (push_gap (selectedDuration s) (fst st) dayEnd (snd st)))"

section \<open>Write path\<close>

text \<open>The fields of the class form that the two submit handlers read.\<close>

record form =
  existingStudentSelect :: string
  studentNameInput :: string
  daySelect :: string
  startTimeInput :: string
  endTimeInput :: string

text \<open>\<^verbatim>\<open>String.prototype.trim\<close> on the white space of ASCII.\<close>

definition is_space :: "char \<Rightarrow> bool" where
  "is_space c \<longleftrightarrow> c \<in> set [CHR '' '', CHR 0x09, CHR 0x0A, CHR 0x0B, CHR 0x0C, CHR 0x0D]"

definition trim :: "string \<Rightarrow> string" where
  "trim s = rev (dropWhile is_space (rev (dropWhile is_space s)))"

text \<open>\<^verbatim>\<open>existingStudentSelect.value || studentNameInput.value.trim()\<close>\<close>

definition studentName :: "form \<Rightarrow> string" where
  "studentName f = (if existingStudentSelect f \<noteq> [] then existingStudentSelect f
                    else trim (studentNameInput f))"

text \<open>\<^verbatim>\<open>Array.prototype.indexOf\<close>: the first position, or -1.\<close>

fun indexOf :: "'a list \<Rightarrow> 'a \<Rightarrow> int" where
  "indexOf [] x = -1"
| "indexOf (y # ys) x = (if y = x then 0 else (let i = indexOf ys x in if i = -1 then -1 else i + 1))"

text \<open>
  \<^verbatim>\<open>classes[i] = v\<close>. Inside the array the element is replaced, at its end the array grows
  by one. Beyond the end JavaScript would leave holes before the new element; every
  traversal of the planner skips holes, and the list here leaves them out.
\<close>

definition assign_at :: "'a list \<Rightarrow> nat \<Rightarrow> 'a \<Rightarrow> 'a list" where
  "assign_at xs i v = (if i < length xs then xs[i := v] else xs @ [v])"

text \<open>\<^verbatim>\<open>closeModal()\<close> with \<^verbatim>\<open>resetFormUI()\<close>, as far as the globals go.\<close>

definition closeModal :: "app \<Rightarrow> app" where
  "closeModal s = s\<lparr>editingIndex := None, allowClashOverride := False, selectedDuration := 60\<rparr>"

text \<open>The object literal of a session: every property not written is absent.\<close>

definition new_session :: "string \<Rightarrow> string \<Rightarrow> string option \<Rightarrow> string \<Rightarrow> string \<Rightarrow> session" where
  "new_session name d dt st en =
     \<lparr>start = st, endt = en, student = name, day = d, date = dt, cancelled = False,
      cancelReason = None, cancelledAt = None, customCancelReason = None,
      pendingConfirmation = False, pendingSince = None, allowedClash = False,
      completedDate = None\<rparr>"

text \<open>
  \<^verbatim>\<open>handleFormSubmit(e)\<close>. The parameter \<open>weekDate\<close> stands for the \<^verbatim>\<open>Date\<close> arithmetic:
  \<open>weekDate i\<close> is the ISO date, \<^verbatim>\<open>toISOString().split('T')[0]\<close>, of the Monday of the
  displayed week moved by \<open>i\<close> days. The result is the notice shown and the globals after
  the handler has returned. The toast after a save with a clash is behind a test of
  \<^verbatim>\<open>allowClashOverride\<close> that comes after \<^verbatim>\<open>closeModal()\<close> has reset the flag, so no notice
  follows a save.
\<close>

definition handleFormSubmit :: "(int \<Rightarrow> string) \<Rightarrow> form \<Rightarrow> app \<Rightarrow> notice \<times> app" where
  "handleFormSubmit weekDate f s =
     (if studentName f = [] then (Alert ''Please select or enter a student name'', s)
      else
        let dayIndex = indexOf DAYS (daySelect f);
            cls = new_session (studentName f) (daySelect f) (Some (weekDate dayIndex))
                    (startTimeInput f) (endTimeInput f)
        in if endt cls \<le> start cls then (Alert ''End time must be after start time'', s)
           else if hasClash s cls (editingIndex s) \<and> \<not> allowClashOverride s
             then (FormClashWarning, s)
           else
             let cls' = (if allowClashOverride s then cls\<lparr>allowedClash := True\<rparr> else cls);
                 classes' = (case editingIndex s of
                               Some i \<Rightarrow> assign_at (classes s) i cls'
                             | None \<Rightarrow> classes s @ [cls'])
             in (Saved, closeModal (s\<lparr>classes := classes'\<rparr>)))"

text \<open>
  \<^verbatim>\<open>{ ...classes[editingIndex], ...cls }\<close> in \<^verbatim>\<open>handleCheckWithStudent\<close>: the properties that
  the new object literal writes replace those of the stored session, the others stay.
  \<^verbatim>\<open>allowedClash\<close> is written only under the override.
\<close>

definition spread_pending :: "session \<Rightarrow> session \<Rightarrow> bool \<Rightarrow> session" where
  "spread_pending old cls override =
     old\<lparr>student := student cls, day := day cls, start := start cls, endt := endt cls,
         pendingConfirmation := True, pendingSince := pendingSince cls,
         allowedClash := (if override then True else allowedClash old)\<rparr>"

text \<open>
  \<^verbatim>\<open>handleCheckWithStudent()\<close>; \<open>nowIso\<close> is \<^verbatim>\<open>new Date().toISOString()\<close>. The session
  literal has no \<^verbatim>\<open>date\<close> property.
\<close>

definition handleCheckWithStudent :: "string \<Rightarrow> form \<Rightarrow> app \<Rightarrow> notice \<times> app" where
  "handleCheckWithStudent nowIso f s =
     (if studentName f = [] then (Alert ''Please select or enter a student name'', s)
      else if daySelect f = [] \<or> startTimeInput f = [] \<or> endTimeInput f = []
        then (Alert ''Please fill in all fields'', s)
      else if endTimeInput f \<le> startTimeInput f
        then (Alert ''End time must be after start time'', s)
      else
        let cls = (new_session (studentName f) (daySelect f) None
                     (startTimeInput f) (endTimeInput f))
                    \<lparr>pendingConfirmation := True, pendingSince := Some nowIso\<rparr>
        in if hasClash s cls (editingIndex s) \<and> \<not> allowClashOverride s
             then (FormClashWarning, s)
           else
             let cls' = (if allowClashOverride s then cls\<lparr>allowedClash := True\<rparr> else cls);
                 classes' = (case editingIndex s of
                               Some i \<Rightarrow>
                                 if i < length (classes s)
                                 then (classes s)[i := spread_pending (classes s ! i) cls (allowClashOverride s)]
                                 else classes s @ [cls']
                             | None \<Rightarrow> classes s @ [cls'])
             in (Toast ''WhatsApp opened - awaiting student confirmation'',
                 closeModal (s\<lparr>classes := classes'\<rparr>)))"

text \<open>
  \<^verbatim>\<open>handleRestoreClass()\<close>. \<^verbatim>\<open>testClass\<close> is the edited session with \<^verbatim>\<open>cancelled: false\<close> and
  the three cancellation properties deleted. With a stale index \<^verbatim>\<open>cls\<close> is \<^verbatim>\<open>undefined\<close>: the
  check finds no session of the weekday \<^verbatim>\<open>undefined\<close>, and the first \<^verbatim>\<open>delete cls.cancelled\<close>
  throws.
\<close>

definition uncancel :: "session \<Rightarrow> session" where
  "uncancel c = c\<lparr>cancelled := False, cancelReason := None, cancelledAt := None,
                  customCancelReason := None\<rparr>"

definition wouldClash :: "app \<Rightarrow> nat \<Rightarrow> session \<Rightarrow> bool" where
  "wouldClash s e testClass =
     list_ex (\<lambda>ic. case ic of (i, c) \<Rightarrow>
                if i = e then False
                else if cancelled c then False
                else day c = day testClass \<and> timesOverlap testClass c)
             (enumerate 0 (classes s))"

definition handleRestoreClass :: "app \<Rightarrow> notice \<times> app" where
  "handleRestoreClass s = (case editingIndex s of
       None \<Rightarrow> (Ignored, s)
     | Some e \<Rightarrow>
         if e < length (classes s) then
           (let cls = classes s ! e;
                testClass = uncancel cls
            in if wouldClash s e testClass
               then (Alert ''Cannot restore: This slot now has a time clash with another class.'', s)
               else (Toast ''Class restored successfully!'',
                     closeModal (s\<lparr>classes := (classes s)[e := uncancel cls]\<rparr>)))
         else (TypeError, s))"

text \<open>\<^verbatim>\<open>migrateClassesToDateFormat()\<close>, run by \<^verbatim>\<open>init()\<close> at load and after an import;
  \<open>weekDate\<close> is as above, for the week current at that time.\<close>

definition migrate_class :: "(int \<Rightarrow> string) \<Rightarrow> session \<Rightarrow> session" where
  "migrate_class weekDate cls =
     (if \<not> truthy (date cls) then
        (let dayIndex = indexOf DAYS (day cls)
         in if dayIndex \<noteq> -1 then cls\<lparr>date := Some (weekDate dayIndex)\<rparr> else cls)
      else cls)"

definition migrateClassesToDateFormat :: "(int \<Rightarrow> string) \<Rightarrow> app \<Rightarrow> app" where
  "migrateClassesToDateFormat weekDate s = s\<lparr>classes := map (migrate_class weekDate) (classes s)\<rparr>"

section \<open>Lifecycle classifier\<close>

text \<open>
  What \<^verbatim>\<open>renderReport\<close> reads from the clock: \<^verbatim>\<open>today.getDay()\<close>, where 0 is Sunday and 6 is
  Saturday, and the instant \<^verbatim>\<open>now\<close>, kept as the milliseconds since local midnight.
\<close>

record clock =
  todayDayIndex :: nat
  nowMs :: nat

definition dayIndexMap :: "string \<rightharpoonup> nat" where
  "dayIndexMap = map_of [(''Sunday'', 0), (''Monday'', 1), (''Tuesday'', 2), (''Wednesday'', 3),
                         (''Thursday'', 4), (''Friday'', 5), (''Saturday'', 6)]"

text \<open>
  \<^verbatim>\<open>isClassCompleted(cls)\<close>, the helper inside \<^verbatim>\<open>renderReport\<close>. A weekday name outside the
  map gives \<^verbatim>\<open>undefined\<close>, for which both comparisons are false. \<^verbatim>\<open>classEndTime\<close> is today at
  \<^verbatim>\<open>endHour:endMin:00.000\<close>; with a \<^verbatim>\<open>NaN\<close> part it is an invalid date and \<^verbatim>\<open>now > classEndTime\<close>
  is false.
\<close>

definition isClassCompleted :: "clock \<Rightarrow> session \<Rightarrow> bool" where
  "isClassCompleted k cls =
     (if truthy (completedDate cls) then True
      else (case dayIndexMap (day cls) of
              None \<Rightarrow> False
            | Some classDayIndex \<Rightarrow>
                if classDayIndex < todayDayIndex k then True
                else if classDayIndex = todayDayIndex k then
                  (case parse_hm (endt cls) of
                     None \<Rightarrow> False
                   | Some (endHour, endMin) \<Rightarrow> nowMs k > (endHour * 60 + endMin) * 60000)
                else False))"

section \<open>Period aggregator\<close>

text \<open>\<^verbatim>\<open>getClassesInRange\<close>, on the two ISO dates that it derives from its arguments.\<close>

definition getClassesInRange :: "app \<Rightarrow> string \<Rightarrow> string \<Rightarrow> session list" where
  "getClassesInRange s startStr endStr =
     filter (\<lambda>cls. case date cls of
                      None \<Rightarrow> False
                    | Some d \<Rightarrow> d \<noteq> [] \<and> d \<ge> startStr \<and> d \<le> endStr)
            (classes s)"

text \<open>\<^verbatim>\<open>getClassPaymentId(cls)\<close>; an absent date prints as \<^verbatim>\<open>undefined\<close>.\<close>

definition getClassPaymentId :: "session \<Rightarrow> string" where
  "getClassPaymentId cls =
     student cls @ ''_'' @ (case date cls of None \<Rightarrow> ''undefined'' | Some d \<Rightarrow> d) @ ''_'' @
     start cls @ ''_'' @ endt cls"

text \<open>
  Numbers that may be \<^verbatim>\<open>NaN\<close> (\<open>None\<close>). The amounts are computed in exact arithmetic:
  \<^verbatim>\<open>Math.round(x)\<close> is \<open>\<lfloor>x + 1/2\<rfloor>\<close>. JavaScript computes \<^verbatim>\<open>(minutes / 60) * rate\<close> in binary
  floating point, which agrees with the exact value wherever \<^verbatim>\<open>minutes / 60\<close> is a binary
  fraction (a multiple of 15 minutes, as in all examples below).
\<close>

type_synonym num = "int option"

definition add_num :: "num \<Rightarrow> num \<Rightarrow> num" where
  "add_num a b = (case (a, b) of (Some x, Some y) \<Rightarrow> Some (x + y) | _ \<Rightarrow> None)"

definition sub_num :: "num \<Rightarrow> num \<Rightarrow> num" where
  "sub_num a b = (case (a, b) of (Some x, Some y) \<Rightarrow> Some (x - y) | _ \<Rightarrow> None)"

definition Math_round :: "rat \<Rightarrow> int" where
  "Math_round x = \<lfloor>x + 1 / 2\<rfloor>"

text \<open>\<^verbatim>\<open>Math.round((minutes / 60) * rate)\<close>\<close>

definition amount_for :: "num \<Rightarrow> int \<Rightarrow> num" where
  "amount_for minutes rate =
     (case minutes of None \<Rightarrow> None
      | Some m \<Rightarrow> Some (Math_round ((of_int m / 60) * of_int rate)))"

text \<open>\<^verbatim>\<open>studentRates[student] || defaultRate\<close>: an absent rate and the rate 0 are falsy.\<close>

definition rate_of :: "app \<Rightarrow> string \<Rightarrow> int" where
  "rate_of s name = (case studentRates s name of
       None \<Rightarrow> defaultRate s
     | Some r \<Rightarrow> if r \<noteq> 0 then r else defaultRate s)"

text \<open>\<^verbatim>\<open>paymentStatus[classId]\<close> as a condition.\<close>

definition is_paid :: "app \<Rightarrow> string \<Rightarrow> bool" where
  "is_paid s classId = (paymentStatus s classId = Some True)"


text \<open>The counters at the head of \<^verbatim>\<open>renderReport\<close> and the first \<^verbatim>\<open>forEach\<close>.\<close>

record summary =
  totalClasses :: nat
  cancelledCount :: nat
  pendingCount :: nat
  completedCount :: nat
  upcomingCount :: nat
  periodMinutes :: num

definition count_class :: "clock \<Rightarrow> summary \<Rightarrow> session \<Rightarrow> summary" where
  "count_class k t c =
     (if \<not> cancelled c \<and> \<not> pendingConfirmation c then
        (if isClassCompleted k c
         then t\<lparr>completedCount := completedCount t + 1,
                periodMinutes := add_num (periodMinutes t) (getMinutesBetween (start c) (endt c))\<rparr>
         else t\<lparr>upcomingCount := upcomingCount t + 1\<rparr>)
      else t)"

definition period_summary :: "clock \<Rightarrow> session list \<Rightarrow> summary" where
  "period_summary k classesInRange =
     foldl (count_class k)
       \<lparr>totalClasses = length classesInRange,
        cancelledCount = length (filter cancelled classesInRange),
        pendingCount = length (filter pendingConfirmation classesInRange),
        completedCount = 0, upcomingCount = 0, periodMinutes = Some 0\<rparr>
       classesInRange"

text \<open>
  The entries of \<^verbatim>\<open>studentStats\<close>. The object is an association list in insertion order;
  student names are taken to be none of the names that every JavaScript object inherits
  (such as \<^verbatim>\<open>constructor\<close>).
\<close>

record stats =
  total :: nat
  cancelledClasses :: nat
  pending :: nat
  completed :: nat
  upcoming :: nat
  completedMinutes :: num
  upcomingMinutes :: num
  paidClasses :: nat
  paidMinutes :: num
  completedClassIds :: "string list"

definition fresh_stats :: stats where
  "fresh_stats = \<lparr>total = 0, cancelledClasses = 0, pending = 0, completed = 0, upcoming = 0,
     completedMinutes = Some 0, upcomingMinutes = Some 0, paidClasses = 0, paidMinutes = Some 0,
     completedClassIds = []\<rparr>"

text \<open>The body of the second \<^verbatim>\<open>forEach\<close>, on the entry of the student of \<open>c\<close>.\<close>

definition tally :: "app \<Rightarrow> clock \<Rightarrow> session \<Rightarrow> stats \<Rightarrow> stats" where
  "tally s k c st0 =
     (let st = st0\<lparr>total := total st0 + 1\<rparr>
      in if cancelled c then st\<lparr>cancelledClasses := cancelledClasses st + 1\<rparr>
         else if pendingConfirmation c then st\<lparr>pending := pending st + 1\<rparr>
         else
           let minutes = getMinutesBetween (start c) (endt c)
           in if isClassCompleted k c then
                (let classId = getClassPaymentId c;
                     st1 = st\<lparr>completed := completed st + 1,
                              completedMinutes := add_num (completedMinutes st) minutes,
                              completedClassIds := completedClassIds st @ [classId]\<rparr>
                 in if is_paid s classId
                    then st1\<lparr>paidClasses := paidClasses st1 + 1,
                             paidMinutes := add_num (paidMinutes st1) minutes\<rparr>
                    else st1)
              else st\<lparr>upcoming := upcoming st + 1,
                       upcomingMinutes := add_num (upcomingMinutes st) minutes\<rparr>)"

fun upd_stats :: "string \<Rightarrow> (stats \<Rightarrow> stats) \<Rightarrow> (string \<times> stats) list \<Rightarrow> (string \<times> stats) list" where
  "upd_stats name f [] = [(name, f fresh_stats)]"
| "upd_stats name f ((n, st) # rest) =
     (if n = name then (n, f st) # rest else (n, st) # upd_stats name f rest)"

definition studentStats :: "app \<Rightarrow> clock \<Rightarrow> session list \<Rightarrow> (string \<times> stats) list" where
  "studentStats s k classesInRange =
     foldl (\<lambda>acc c. upd_stats (student c) (tally s k c) acc) [] classesInRange"

text \<open>One row of the report table: what the \<^verbatim>\<open>students.map\<close> callback computes.\<close>

record row =
  row_student :: string
  row_completedMinutes :: num
  rate :: int
  amount :: num
  paidAmountForStudent :: num
  unpaidAmount :: num

definition make_row :: "app \<Rightarrow> string \<times> stats \<Rightarrow> row" where
  "make_row s e = (case e of (name, st) \<Rightarrow>
     (let r = rate_of s name;
          a = amount_for (completedMinutes st) r;
          p = amount_for (paidMinutes st) r
      in \<lparr>row_student = name, row_completedMinutes = completedMinutes st, rate = r,
          amount = a, paidAmountForStudent = p, unpaidAmount = sub_num a p\<rparr>))"

text \<open>\<^verbatim>\<open>Object.keys(studentStats).sort()\<close> orders the students by the string order.\<close>

definition report_rows :: "app \<Rightarrow> clock \<Rightarrow> session list \<Rightarrow> row list" where
  "report_rows s k classesInRange =
     map (make_row s) (sort_key fst (studentStats s k classesInRange))"

text \<open>The running totals \<^verbatim>\<open>totalAmount\<close> and \<^verbatim>\<open>paidAmount\<close>, and sums of that kind.\<close>

definition sum_num :: "num list \<Rightarrow> num" where
  "sum_num xs = foldl add_num (Some 0) xs"

text \<open>\<^verbatim>\<open>renderReport()\<close> for the period from \<open>startStr\<close> to \<open>endStr\<close>: the counters, the rows and
  the two totals of the footer.\<close>

definition renderReport :: "app \<Rightarrow> clock \<Rightarrow> string \<Rightarrow> string \<Rightarrow> summary \<times> row list \<times> num \<times> num" where
  "renderReport s k startStr endStr =
     (let classesInRange = getClassesInRange s startStr endStr;
          rows = report_rows s k classesInRange
      in (period_summary k classesInRange, rows,
          sum_num (map amount rows), sum_num (map paidAmountForStudent rows)))"

section \<open>Example data\<close>

text \<open>
  The globals as \<^verbatim>\<open>app.js\<close> initialises them, around a given array of sessions, and the
  sessions and forms of the scenarios used below. The week of the examples runs from
  Monday 2024-06-03 to Sunday 2024-06-09.
\<close>

definition initial_app :: "session list \<Rightarrow> app" where
  "initial_app cs = \<lparr>classes = cs, editingIndex = None, selectedDuration = 60,
     allowClashOverride = False, studentRates = Map.empty, paymentStatus = Map.empty,
     defaultRate = 500\<rparr>"

definition week_of_june_3 :: "int \<Rightarrow> string" where
  "week_of_june_3 i =
     (if 0 \<le> i \<and> i < 7
      then [''2024-06-03'', ''2024-06-04'', ''2024-06-05'', ''2024-06-06'', ''2024-06-07'',
            ''2024-06-08'', ''2024-06-09''] ! nat i
      else ''2024-06-02'')"

definition asha :: session where
  "asha = new_session ''Asha'' ''Monday'' (Some ''2024-06-03'') ''09:00'' ''10:00''"

definition riya :: session where
  "riya = new_session ''Riya'' ''Monday'' (Some ''2024-06-03'') ''09:30'' ''10:30''"

definition after_asha :: session where
  "after_asha = new_session ''Riya'' ''Monday'' (Some ''2024-06-03'') ''10:00'' ''11:00''"

definition legacy_asha :: session where
  "legacy_asha = new_session ''Asha'' ''Monday'' None ''09:00'' ''10:00''"

definition cancelled_asha :: session where
  "cancelled_asha = asha\<lparr>cancelled := True, cancelReason := Some ''holiday''\<rparr>"



definition kabir :: session where
  "kabir = new_session ''Kabir'' ''Monday'' (Some ''2024-06-03'') ''09:00'' ''10:30''"

definition meera_mon :: session where
  "meera_mon = new_session ''Meera'' ''Monday'' (Some ''2024-06-03'') ''16:00'' ''16:45''"

definition meera_tue :: session where
  "meera_tue = new_session ''Meera'' ''Tuesday'' (Some ''2024-06-04'') ''16:00'' ''16:45''"

definition saturday_class :: session where
  "saturday_class = new_session ''Asha'' ''Saturday'' (Some ''2024-06-08'') ''09:00'' ''10:00''"

definition next_monday_class :: session where
  "next_monday_class = new_session ''Asha'' ''Monday'' (Some ''2024-06-10'') ''09:00'' ''10:00''"

definition cancelled_all_day :: session where
  "cancelled_all_day =
     (new_session ''Asha'' ''Monday'' (Some ''2024-06-03'') ''08:00'' ''20:00'')\<lparr>cancelled := True\<rparr>"

text \<open>Noon on Wednesday 2024-06-05 and on Sunday 2024-06-09.\<close>

definition wednesday_noon :: clock where
  "wednesday_noon = \<lparr>todayDayIndex = 3, nowMs = 43200000\<rparr>"

definition sunday_noon :: clock where
  "sunday_noon = \<lparr>todayDayIndex = 0, nowMs = 43200000\<rparr>"



text \<open>Meera pays 150 an hour and has paid for Monday; Kabir is on the default rate.\<close>

definition meera_app :: app where
  "meera_app = (initial_app [meera_mon, kabir, meera_tue])
     \<lparr>studentRates := [''Meera'' \<mapsto> 150], paymentStatus := [getClassPaymentId meera_mon \<mapsto> True]\<rparr>"

text \<open>The edit dialog is open on Asha's cancelled session; next Monday's session is stored too.\<close>

definition restore_state :: app where
  "restore_state = (initial_app [cancelled_asha, next_monday_class])\<lparr>editingIndex := Some 0\<rparr>"

definition asha_form :: form where
  "asha_form = \<lparr>existingStudentSelect = ''Asha'', studentNameInput = [],
     daySelect = ''Monday'', startTimeInput = ''09:00'', endTimeInput = ''10:00''\<rparr>"

definition riya_monday_form :: form where
  "riya_monday_form = \<lparr>existingStudentSelect = ''Riya'', studentNameInput = [],
     daySelect = ''Monday'', startTimeInput = ''09:30'', endTimeInput = ''10:30''\<rparr>"

definition pending_asha :: session where
  "pending_asha = legacy_asha\<lparr>pendingConfirmation := True,
     pendingSince := Some ''2024-06-01T08:00:00.000Z''\<rparr>"

text \<open>The store after the check-with-student button has been pressed on an empty planner.\<close>

definition awaiting_asha :: app where
  "awaiting_asha = snd (handleCheckWithStudent ''2024-06-01T08:00:00.000Z'' asha_form (initial_app []))"



section \<open>Notions for stating the properties\<close>

text \<open>
  Completion as the specification words it: the calendar date of the session is before
  today, or it is today and the current time is past the end of the session. \<open>today\<close> is
  the ISO date of today and \<open>now\<close> the milliseconds since midnight. This definition is not
  taken from the code; it is what \<^verbatim>\<open>isClassCompleted\<close> is compared with.
\<close>

definition spec_isClassCompleted :: "string \<Rightarrow> nat \<Rightarrow> session \<Rightarrow> bool" where
  "spec_isClassCompleted today now cls = (case date cls of
       None \<Rightarrow> False
     | Some d \<Rightarrow> d < today \<or>
         (d = today \<and> (case parse_hm (endt cls) of
                          None \<Rightarrow> False
                        | Some (h, m) \<Rightarrow> now > (h * 60 + m) * 60000)))"

text \<open>
  The sessions that both loops of \<^verbatim>\<open>renderReport\<close> count as completed, the minutes of a
  session, and the completed sessions of one student: all of them, and those whose entry
  in the payment ledger is true.
\<close>

definition counted :: "clock \<Rightarrow> session \<Rightarrow> bool" where
  "counted k c \<longleftrightarrow> \<not> cancelled c \<and> \<not> pendingConfirmation c \<and> isClassCompleted k c"

definition minutes_of :: "session \<Rightarrow> num" where
  "minutes_of c = getMinutesBetween (start c) (endt c)"

definition completed_of :: "clock \<Rightarrow> string \<Rightarrow> session list \<Rightarrow> session list" where
  "completed_of k name cs = filter (\<lambda>c. student c = name \<and> counted k c) cs"

definition paid_of :: "app \<Rightarrow> clock \<Rightarrow> string \<Rightarrow> session list \<Rightarrow> session list" where
  "paid_of s k name cs =
     filter (\<lambda>c. student c = name \<and> counted k c \<and> is_paid s (getClassPaymentId c)) cs"



section \<open>Properties of the clash detector\<close>

lemma new_session_sel:
  "start (new_session n d dt st en) = st" "endt (new_session n d dt st en) = en"
  "student (new_session n d dt st en) = n" "day (new_session n d dt st en) = d"
  "date (new_session n d dt st en) = dt" "cancelled (new_session n d dt st en) = False"
  "pendingConfirmation (new_session n d dt st en) = False"
  "allowedClash (new_session n d dt st en) = False"
  "completedDate (new_session n d dt st en) = None"
  by (simp_all add: new_session_def)

lemma clashes_with_iff:
  "clashes_with n ex (i, c) \<longleftrightarrow>
     ex \<noteq> Some i \<and> \<not> cancelled c \<and>
     (if truthy (date n) then date c = date n else day c = day n) \<and>
     start n < endt c \<and> start c < endt n"
  by (auto simp: clashes_with_def timesOverlap_def)

lemma hasClash_iff:
  "hasClash s n ex \<longleftrightarrow>
     (\<exists>i < length (classes s).
        ex \<noteq> Some i \<and> \<not> cancelled (classes s ! i) \<and>
        (if truthy (date n) then date (classes s ! i) = date n
         else day (classes s ! i) = day n) \<and>
        start n < endt (classes s ! i) \<and> start (classes s ! i) < endt n)"
proof -
  have "hasClash s n ex \<longleftrightarrow> (\<exists>i < length (classes s). clashes_with n ex (i, classes s ! i))"
    unfolding hasClash_def list_ex_iff by (auto simp: in_set_enumerate_eq)
  then show ?thesis by (simp only: clashes_with_iff)
qed

text \<open>Where no visited index is the excluded one, the positions play no part.\<close>

lemma list_ex_clashes_skip:
  assumes "\<And>i. i \<in> {k ..< k + length ys} \<Longrightarrow> ex \<noteq> Some i"
  shows "list_ex (clashes_with n ex) (enumerate k ys) \<longleftrightarrow>
         (\<exists>c \<in> set ys. clashes_with n None (0, c))"
proof -
  have "list_ex (clashes_with n ex) (enumerate k ys) \<longleftrightarrow>
        (\<exists>j < length ys. clashes_with n ex (k + j, ys ! j))"
    unfolding list_ex_iff
    by (auto simp: in_set_enumerate_eq)
       (metis add.commute le_add_diff_inverse2 nat_add_left_cancel_less)
  also have "\<dots> \<longleftrightarrow> (\<exists>j < length ys. clashes_with n None (0, ys ! j))"
  proof -
    have "clashes_with n ex (k + j, ys ! j) = clashes_with n None (0, ys ! j)"
      if "j < length ys" for j
    proof -
      from that have "ex \<noteq> Some (k + j)" using assms by simp
      then show ?thesis by (simp add: clashes_with_iff)
    qed
    then show ?thesis by auto
  qed
  also have "\<dots> \<longleftrightarrow> (\<exists>c \<in> set ys. clashes_with n None (0, c))"
    by (metis in_set_conv_nth)
  finally show ?thesis .
qed

lemma hasClash_skip_cancelled:
  assumes "cancelled c"
  shows "hasClash (s\<lparr>classes := xs @ c # ys\<rparr>) n None = hasClash (s\<lparr>classes := xs @ ys\<rparr>) n None"
proof -
  have "\<not> clashes_with n None (0, c)" using assms by (simp add: clashes_with_iff)
  then show ?thesis
    by (simp add: hasClash_def list_ex_clashes_skip)
qed

lemma hasClash_skip_excluded:
  "hasClash (s\<lparr>classes := xs @ c # ys\<rparr>) n (Some (length xs)) =
   hasClash (s\<lparr>classes := xs @ ys\<rparr>) n None"
proof -
  have 1: "list_ex (clashes_with n (Some (length xs))) (enumerate 0 xs) \<longleftrightarrow>
           (\<exists>c \<in> set xs. clashes_with n None (0, c))"
    by (rule list_ex_clashes_skip) simp
  have 2: "list_ex (clashes_with n (Some (length xs))) (enumerate (Suc (length xs)) ys) \<longleftrightarrow>
           (\<exists>c \<in> set ys. clashes_with n None (0, c))"
    by (rule list_ex_clashes_skip) simp
  have 3: "\<not> clashes_with n (Some (length xs)) (length xs, c)"
    by (simp add: clashes_with_iff)
  have "hasClash (s\<lparr>classes := xs @ c # ys\<rparr>) n (Some (length xs)) \<longleftrightarrow>
        (\<exists>c \<in> set xs \<union> set ys. clashes_with n None (0, c))"
    by (simp add: hasClash_def enumerate_append_eq 1 2 3) blast
  also have "\<dots> \<longleftrightarrow> hasClash (s\<lparr>classes := xs @ ys\<rparr>) n None"
    by (simp add: hasClash_def list_ex_clashes_skip)
  finally show ?thesis .
qed

text \<open>
  A stored session without a date, on the weekday of a candidate that carries a date and
  at overlapping times: the detector compares the dates, one of which is absent, and
  reports no clash.
\<close>

theorem hasClash_legacy_counterexample:
  "\<not> truthy (date legacy_asha) \<and> day legacy_asha = day riya \<and> \<not> cancelled legacy_asha \<and>
   timesOverlap riya legacy_asha \<and> \<not> hasClash (initial_app [legacy_asha]) riya None"
  by (simp add: initial_app_def legacy_asha_def riya_def new_session_def truthy_def
        timesOverlap_def hasClash_def clashes_with_def)

text \<open>
  Claim C1, amended. \<^verbatim>\<open>hasClash\<close> reports a conflict iff some stored session, neither the
  excluded one nor cancelled, overlaps the candidate in the half-open sense
  \<open>a.start < b.end \<and> b.start < a.end\<close> and is on the same day as the candidate, where the
  same day means: the stored session has the candidate's date when the candidate carries a
  date, and the candidate's weekday name when the candidate carries none. A stored session
  without a date is thus never in conflict with a candidate that has one. In particular,
  when every stored session ends at the time the candidate starts, or starts at the time
  the candidate ends, there is no clash.
\<close>

theorem hasClash_criterion:
  "(hasClash s n ex \<longleftrightarrow>
      (\<exists>i < length (classes s).
         ex \<noteq> Some i \<and> \<not> cancelled (classes s ! i) \<and>
         (if truthy (date n) then date (classes s ! i) = date n
          else day (classes s ! i) = day n) \<and>
         start n < endt (classes s ! i) \<and> start (classes s ! i) < endt n)) \<and>
   ((\<forall>c \<in> set (classes s). endt c = start n \<or> endt n = start c) \<longrightarrow> \<not> hasClash s n ex)"
proof
  show "hasClash s n ex \<longleftrightarrow>
      (\<exists>i < length (classes s).
         ex \<noteq> Some i \<and> \<not> cancelled (classes s ! i) \<and>
         (if truthy (date n) then date (classes s ! i) = date n
          else day (classes s ! i) = day n) \<and>
         start n < endt (classes s ! i) \<and> start (classes s ! i) < endt n)"
    by (rule hasClash_iff)
  show "(\<forall>c \<in> set (classes s). endt c = start n \<or> endt n = start c) \<longrightarrow> \<not> hasClash s n ex"
  proof
    assume b: "\<forall>c \<in> set (classes s). endt c = start n \<or> endt n = start c"
    show "\<not> hasClash s n ex"
    proof
      assume "hasClash s n ex"
      then obtain i where i: "i < length (classes s)"
        "start n < endt (classes s ! i)" "start (classes s ! i) < endt n"
        unfolding hasClash_iff by blast
      from i(1) b have "endt (classes s ! i) = start n \<or> endt n = start (classes s ! i)"
        by simp
      with i(2,3) show False by auto
    qed
  qed
qed

text \<open>
  The scenario of the specification: with Asha's session from 09:00 to 10:00 stored, a
  session from 09:30 to 10:30 on the same date clashes, one from 10:00 to 11:00 does not.
\<close>

theorem hasClash_criterion_witness:
  "hasClash (initial_app [asha]) riya None \<and> endt asha = start after_asha \<and>
   \<not> hasClash (initial_app [asha]) after_asha None"
proof -
  have e: "endt asha = start after_asha"
    by (simp add: asha_def after_asha_def new_session_def)
  then have h: "\<forall>c \<in> set (classes (initial_app [asha])).
             endt c = start after_asha \<or> endt after_asha = start c"
    by (simp add: initial_app_def)
  have "hasClash (initial_app [asha]) riya None"
    using hasClash_criterion[of "initial_app [asha]" riya None]
    by (simp add: initial_app_def asha_def riya_def new_session_def truthy_def)
  moreover have "\<not> hasClash (initial_app [asha]) after_asha None"
    using hasClash_criterion[of "initial_app [asha]" after_asha None] h by blast
  ultimately show ?thesis using e by blast
qed

text \<open>
  Claim C6. \<^verbatim>\<open>hasClash\<close> skips every cancelled session and the excluded position: with
  either in the store, the answer is the one for the store without that session. When
  every stored session is cancelled or excluded there is no clash, whatever the times and
  dates of the candidate, and \<^verbatim>\<open>handleFormSubmit\<close> does not stop at the clash warning.
\<close>

theorem hasClash_skips_cancelled_and_excluded:
  "(cancelled c \<longrightarrow>
      hasClash (s\<lparr>classes := xs @ c # ys\<rparr>) n None = hasClash (s\<lparr>classes := xs @ ys\<rparr>) n None) \<and>
   hasClash (s\<lparr>classes := xs @ c # ys\<rparr>) n (Some (length xs)) =
     hasClash (s\<lparr>classes := xs @ ys\<rparr>) n None \<and>
   ((\<forall>i < length (classes s). cancelled (classes s ! i) \<or> ex = Some i) \<longrightarrow>
      \<not> hasClash s n ex) \<and>
   ((\<forall>i < length (classes s). cancelled (classes s ! i) \<or> editingIndex s = Some i) \<longrightarrow>
      fst (handleFormSubmit w f s) \<noteq> FormClashWarning)"
proof (intro conjI impI)
  assume "cancelled c"
  then show "hasClash (s\<lparr>classes := xs @ c # ys\<rparr>) n None =
             hasClash (s\<lparr>classes := xs @ ys\<rparr>) n None"
    by (rule hasClash_skip_cancelled)
next
  show "hasClash (s\<lparr>classes := xs @ c # ys\<rparr>) n (Some (length xs)) =
        hasClash (s\<lparr>classes := xs @ ys\<rparr>) n None"
    by (rule hasClash_skip_excluded)
next
  assume "\<forall>i < length (classes s). cancelled (classes s ! i) \<or> ex = Some i"
  then show "\<not> hasClash s n ex" unfolding hasClash_iff by blast
next
  assume a: "\<forall>i < length (classes s). cancelled (classes s ! i) \<or> editingIndex s = Some i"
  then have "\<not> hasClash s x (editingIndex s)" for x unfolding hasClash_iff by blast
  then show "fst (handleFormSubmit w f s) \<noteq> FormClashWarning"
    by (simp add: handleFormSubmit_def Let_def)
qed

text \<open>
  Asha's session, cancelled, is the only one stored; a session with the same date and
  times is offered and passes.
\<close>

theorem hasClash_skips_cancelled_witness:
  "cancelled cancelled_asha \<and> start asha = start cancelled_asha \<and>
   endt asha = endt cancelled_asha \<and> date asha = date cancelled_asha \<and>
   \<not> hasClash (initial_app [cancelled_asha]) asha None"
proof -
  have c: "cancelled cancelled_asha" by (simp add: cancelled_asha_def)
  have e: "\<not> hasClash (initial_app []) asha None"
    by (simp add: hasClash_def initial_app_def)
  have "initial_app [cancelled_asha] = (initial_app [])\<lparr>classes := [] @ cancelled_asha # []\<rparr>"
    "initial_app [] = (initial_app [])\<lparr>classes := [] @ []\<rparr>"
    by (simp_all add: initial_app_def)
  with hasClash_skips_cancelled_and_excluded[where c = cancelled_asha and s = "initial_app []"
      and xs = "[]" and ys = "[]" and n = asha] c e
  have "\<not> hasClash (initial_app [cancelled_asha]) asha None" by metis
  with c show ?thesis by (simp add: cancelled_asha_def)
qed

section \<open>Properties of the write path\<close>









section \<open>Properties of the lifecycle classifier\<close>

lemma isClassCompleted_today:
  assumes "\<not> truthy (completedDate c)" and "dayIndexMap (day c) = Some (todayDayIndex k)"
    and "parse_hm (endt c) = Some (h, m)"
  shows "isClassCompleted k c \<longleftrightarrow> nowMs k > (h * 60 + m) * 60000"
  using assms by (simp add: isClassCompleted_def)

lemma count_class_confirmed_only:
  "cancelled c \<or> pendingConfirmation c \<Longrightarrow> count_class k t c = t"
  by (auto simp: count_class_def)

lemma tally_confirmed_only:
  assumes "cancelled c \<or> pendingConfirmation c"
  shows "completed (tally s k c st) = completed st \<and> upcoming (tally s k c st) = upcoming st \<and>
         completedMinutes (tally s k c st) = completedMinutes st"
  using assms by (auto simp: tally_def Let_def)

text \<open>The classifier does not read the date of the session.\<close>

lemma upd_times:
  "endt (c\<lparr>date := d\<rparr>) = endt (c::session)" "start (c\<lparr>date := d\<rparr>) = start c"
  "endt (c\<lparr>cancelled := b\<rparr>) = endt c" "start (c\<lparr>cancelled := b\<rparr>) = start c"
  by (cases c; simp)+

lemma isClassCompleted_ignores_date:
  "isClassCompleted k (c\<lparr>date := d\<rparr>) = isClassCompleted k c"
  by (simp add: isClassCompleted_def upd_times cong: option.case_cong)

text \<open>
  Claim C2, evaluated where the code departs from it. \<^verbatim>\<open>isClassCompleted\<close> compares the
  weekday of the session with the weekday of today, Sunday being day 0, and never looks at
  the date. On Sunday 2024-06-09 at noon a session of Saturday 2024-06-08, whose date is
  before today, is not completed; on Wednesday 2024-06-05 a session of Monday 2024-06-10,
  whose date is still to come, is completed.
\<close>

theorem isClassCompleted_by_weekday:
  "spec_isClassCompleted ''2024-06-09'' (nowMs sunday_noon) saturday_class \<and>
   \<not> isClassCompleted sunday_noon saturday_class \<and>
   \<not> spec_isClassCompleted ''2024-06-05'' (nowMs wednesday_noon) next_monday_class \<and>
   isClassCompleted wednesday_noon next_monday_class"
  by (simp add: spec_isClassCompleted_def isClassCompleted_def saturday_class_def
        next_monday_class_def sunday_noon_def wednesday_noon_def new_session_def truthy_def
        dayIndexMap_def)

section \<open>Properties of the availability finder\<close>

text \<open>
  The finder reads the weekday name and the two times of a session and nothing else: the
  flag \<^verbatim>\<open>cancelled\<close> can be set or cleared on any session without a change in the result.
\<close>

lemma insort_key_map:
  "insort_key k (h x) (map h xs) = map h (insort_key (\<lambda>y. k (h y)) x xs)"
  by (induction xs) simp_all

lemma sort_key_map:
  "sort_key k (map h xs) = map h (sort_key (\<lambda>y. k (h y)) xs)"
  by (induction xs) (simp_all add: insort_key_map)

lemma enumerate_map: "enumerate n (map g xs) = map (\<lambda>ic. (fst ic, g (snd ic))) (enumerate n xs)"
  by (induction xs arbitrary: n) simp_all

lemma sweep_step_times:
  assumes "start c' = start c" "endt c' = endt c"
  shows "sweep_step dur st c' = sweep_step dur st c"
  by (cases st) (simp add: sweep_step_def assms)

lemma foldl_sweep_map:
  assumes "\<And>c. start (g c) = start c" "\<And>c. endt (g c) = endt c"
  shows "foldl (sweep_step dur) st (map g xs) = foldl (sweep_step dur) st xs"
proof (induction xs arbitrary: st)
  case Nil
  show ?case by simp
next
  case (Cons x xs)
  have "sweep_step dur st (g x) = sweep_step dur st x"
    by (rule sweep_step_times) (rule assms)+
  with Cons show ?case by simp
qed

lemma findAvailableSlots_ignores_cancelled:
  "findAvailableSlots (s\<lparr>classes := map (\<lambda>c. c\<lparr>cancelled := f c\<rparr>) (classes s)\<rparr>) d =
   findAvailableSlots s d"
proof -
  define g :: "session \<Rightarrow> session" where "g = (\<lambda>c. c\<lparr>cancelled := f c\<rparr>)"
  define h :: "nat \<times> session \<Rightarrow> nat \<times> session" where "h = (\<lambda>ic. (fst ic, g (snd ic)))"
  have g: "start (g c) = start c" "endt (g c) = endt c" "day (g c) = day c" for c
    by (simp_all add: g_def upd_times)
  have hk: "start (snd (h ic)) = start (snd ic)" "day (snd (h ic)) = day (snd ic)"
    "fst (h ic) = fst ic" for ic
    by (simp_all add: h_def g)
  have e: "enumerate 0 (map g (classes s)) = map h (enumerate 0 (classes s))"
    by (simp add: enumerate_map h_def)
  have fl: "filter (\<lambda>ic. day (snd ic) = d) (map h xs) = map h (filter (\<lambda>ic. day (snd ic) = d) xs)" for xs
    by (induction xs) (simp_all add: hk)
  have fe: "filter (\<lambda>ic. fst ic \<noteq> e) (map h xs) = map h (filter (\<lambda>ic. fst ic \<noteq> e) xs)" for xs e
    by (induction xs) (simp_all add: hk)
  have so: "sort_key (\<lambda>ic. start (snd ic)) (map h xs) = map h (sort_key (\<lambda>ic. start (snd ic)) xs)" for xs
    by (simp add: sort_key_map hk)
  have rel: "relevantClasses (s\<lparr>classes := map g (classes s)\<rparr>) d = map h (relevantClasses s d)"
    by (cases "editingIndex s") (simp_all add: relevantClasses_def Let_def e fl fe so)
  have ms: "map snd (map h xs) = map g (map snd xs)" for xs
    by (induction xs) (simp_all add: h_def)
  have "foldl (sweep_step dur) st (map snd (map h xs)) = foldl (sweep_step dur) st (map snd xs)"
    for dur st xs
    unfolding ms by (rule foldl_sweep_map) (rule g)+
  then show ?thesis
    unfolding g_def[symmetric] by (simp add: findAvailableSlots_def Let_def rel del: map_map)
qed

text \<open>
  Claim C4, evaluated where the code departs from it. \<^verbatim>\<open>findAvailableSlots\<close> filters the
  sessions by weekday name only, so a cancelled session takes its time out of the
  suggestions: with one cancelled session from 08:00 to 20:00 stored nothing is offered,
  with an empty store the slot from 08:00 to 09:00 is.
\<close>

theorem findAvailableSlots_counts_cancelled:
  "cancelled cancelled_all_day \<and>
   findAvailableSlots (initial_app [cancelled_all_day]) ''Monday'' = [] \<and>
   findAvailableSlots (initial_app []) ''Monday'' = [\<lparr>start = ''08:00'', endt = ''09:00''\<rparr>]"
  by code_simp


































section \<open>Properties of restoring a session\<close>

lemma handleRestoreClass_rejected_unchanged:
  "fst (handleRestoreClass s) = Alert m \<Longrightarrow> snd (handleRestoreClass s) = s"
  by (auto simp: handleRestoreClass_def Let_def split: option.splits if_splits)

lemma handleRestoreClass_restores:
  assumes "editingIndex s = Some e" and "e < length (classes s)"
    and "\<not> wouldClash s e (uncancel (classes s ! e))"
  shows "classes (snd (handleRestoreClass s)) = (classes s)[e := uncancel (classes s ! e)]"
  using assms by (simp add: handleRestoreClass_def Let_def closeModal_def)

text \<open>The check made before a restore does not read the date of the restored session.\<close>

lemma wouldClash_ignores_date:
  "wouldClash s e (t\<lparr>date := d\<rparr>) = wouldClash s e t"
  by (simp add: wouldClash_def timesOverlap_def upd_times)

text \<open>
  Claim C8, evaluated where the code departs from it. \<^verbatim>\<open>handleRestoreClass\<close> does not ask
  \<^verbatim>\<open>hasClash\<close>; it looks for a session that is not cancelled, on the same weekday name and
  at overlapping times, whatever its date. Asha's cancelled session of Monday 2024-06-03
  cannot be restored because of her session of Monday 2024-06-10, with which \<^verbatim>\<open>hasClash\<close>
  finds no conflict. The refusal leaves the globals as they were.
\<close>

theorem handleRestoreClass_by_weekday:
  "date next_monday_class \<noteq> date cancelled_asha \<and>
   \<not> hasClash restore_state (uncancel cancelled_asha) (Some 0) \<and>
   fst (handleRestoreClass restore_state) =
     Alert ''Cannot restore: This slot now has a time clash with another class.'' \<and>
   snd (handleRestoreClass restore_state) = restore_state"
  by (simp add: restore_state_def initial_app_def cancelled_asha_def asha_def
       next_monday_class_def new_session_def handleRestoreClass_def wouldClash_def
       uncancel_def timesOverlap_def hasClash_def clashes_with_def truthy_def Let_def)

section \<open>Properties of the period aggregator\<close>

text \<open>Sums of numbers that may be \<^verbatim>\<open>NaN\<close>.\<close>

lemma add_num_simps:
  "add_num (Some x) (Some y) = Some (x + y)" "add_num None b = None" "add_num a None = None"
  by (simp_all add: add_num_def split: option.splits)

lemma add_num_assoc: "add_num (add_num a b) c = add_num a (add_num b c)"
  by (cases a; cases b; cases c) (simp_all add: add_num_simps)

lemma add_num_commute: "add_num a b = add_num b a"
  by (cases a; cases b) (simp_all add: add_num_simps)

lemma add_num_0: "add_num (Some 0) a = a" "add_num a (Some 0) = a"
  by (cases a; simp add: add_num_simps)+

lemma foldl_add_num: "foldl add_num a xs = add_num a (foldl add_num (Some 0) xs)"
proof (induction xs arbitrary: a)
  case Nil
  then show ?case by (simp add: add_num_0)
next
  case (Cons x xs)
  have "foldl add_num a (x # xs) = add_num (add_num a x) (foldl add_num (Some 0) xs)"
    using Cons.IH[of "add_num a x"] by simp
  also have "\<dots> = add_num a (add_num x (foldl add_num (Some 0) xs))"
    by (simp add: add_num_assoc)
  also have "\<dots> = add_num a (foldl add_num (Some 0) (x # xs))"
    using Cons.IH[of "add_num (Some 0) x"] by (simp add: add_num_0)
  finally show ?case .
qed

lemma sum_num_Nil: "sum_num [] = Some 0"
  by (simp add: sum_num_def)

lemma sum_num_Cons: "sum_num (x # xs) = add_num x (sum_num xs)"
  unfolding sum_num_def using foldl_add_num[of "add_num (Some 0) x" xs]
  by (simp add: add_num_0)

lemma sum_num_snoc: "sum_num (xs @ [x]) = add_num (sum_num xs) x"
  by (simp add: sum_num_def)

lemma sum_num_insort:
  "sum_num (map f (insort_key g x xs)) = add_num (f x) (sum_num (map f xs))"
proof (induction xs)
  case Nil
  then show ?case by (simp add: sum_num_Cons)
next
  case (Cons y ys)
  then show ?case
    by (simp add: sum_num_Cons) (metis add_num_assoc add_num_commute)
qed

lemma sum_num_sort_key: "sum_num (map f (sort_key g xs)) = sum_num (map f xs)"
  by (induction xs) (simp_all add: sum_num_insort sum_num_Cons)

lemma sum_num_None_iff: "sum_num xs = None \<longleftrightarrow> None \<in> set xs"
proof (induction xs)
  case Nil
  then show ?case by (simp add: sum_num_Nil)
next
  case (Cons x xs)
  then show ?case
    by (cases x; cases "sum_num xs") (auto simp: sum_num_Cons add_num_simps)
qed

text \<open>The counters of the period.\<close>

lemma periodMinutes_foldl:
  "periodMinutes (foldl (count_class k) t cs) =
   add_num (periodMinutes t) (sum_num (map minutes_of (filter (counted k) cs)))"
proof (induction cs arbitrary: t)
  case Nil
  then show ?case by (simp add: sum_num_Nil add_num_0)
next
  case (Cons c cs)
  show ?case
  proof (cases "counted k c")
    case True
    then have "periodMinutes (count_class k t c) = add_num (periodMinutes t) (minutes_of c)"
      by (simp add: count_class_def counted_def minutes_of_def)
    with True show ?thesis
      using Cons.IH[of "count_class k t c"] by (simp add: sum_num_Cons add_num_assoc)
  next
    case False
    then have "periodMinutes (count_class k t c) = periodMinutes t"
      by (auto simp: count_class_def counted_def)
    with False show ?thesis
      using Cons.IH[of "count_class k t c"] by simp
  qed
qed

lemma periodMinutes_summary:
  "periodMinutes (period_summary k cs) = sum_num (map minutes_of (filter (counted k) cs))"
  by (simp add: period_summary_def periodMinutes_foldl add_num_0)

text \<open>The entries of the students.\<close>

lemma completedMinutes_tally:
  "completedMinutes (tally s k c st) =
   add_num (completedMinutes st) (if counted k c then minutes_of c else Some 0)"
  by (simp add: tally_def counted_def minutes_of_def Let_def add_num_0)

lemma paidMinutes_tally:
  "paidMinutes (tally s k c st) =
   add_num (paidMinutes st)
     (if counted k c \<and> is_paid s (getClassPaymentId c) then minutes_of c else Some 0)"
  by (simp add: tally_def counted_def minutes_of_def Let_def add_num_0)

lemma sum_completed_upd:
  assumes "\<And>st. completedMinutes (f st) = add_num (completedMinutes st) d"
  shows "sum_num (map (\<lambda>e. completedMinutes (snd e)) (upd_stats n f al)) =
         add_num (sum_num (map (\<lambda>e. completedMinutes (snd e)) al)) d"
proof (induction al)
  case Nil
  then show ?case
    by (simp add: sum_num_Cons sum_num_Nil assms fresh_stats_def add_num_0)
next
  case (Cons e al)
  obtain m st where e: "e = (m, st)" by (cases e)
  show ?case
  proof (cases "m = n")
    case True
    then show ?thesis
      by (simp add: e sum_num_Cons assms) (metis add_num_assoc add_num_commute)
  next
    case False
    then show ?thesis
      using Cons.IH by (simp add: e sum_num_Cons add_num_assoc)
  qed
qed

lemma sum_completed_foldl:
  "sum_num (map (\<lambda>e. completedMinutes (snd e))
     (foldl (\<lambda>acc c. upd_stats (student c) (tally s k c) acc) al cs)) =
   add_num (sum_num (map (\<lambda>e. completedMinutes (snd e)) al))
     (sum_num (map minutes_of (filter (counted k) cs)))"
proof (induction cs arbitrary: al)
  case Nil
  then show ?case by (simp add: sum_num_Nil add_num_0)
next
  case (Cons c cs)
  have step: "sum_num (map (\<lambda>e. completedMinutes (snd e)) (upd_stats (student c) (tally s k c) al)) =
      add_num (sum_num (map (\<lambda>e. completedMinutes (snd e)) al))
        (if counted k c then minutes_of c else Some 0)"
    by (rule sum_completed_upd) (rule completedMinutes_tally)
  show ?case
    using Cons.IH[of "upd_stats (student c) (tally s k c) al"]
    by (simp add: step sum_num_Cons add_num_assoc add_num_0)
qed

lemma sum_completed_studentStats:
  "sum_num (map (\<lambda>e. completedMinutes (snd e)) (studentStats s k cs)) =
   sum_num (map minutes_of (filter (counted k) cs))"
  by (simp add: studentStats_def sum_completed_foldl sum_num_Nil add_num_0)

lemma row_completedMinutes_make_row:
  "row_completedMinutes (make_row s e) = completedMinutes (snd e)"
  by (cases e) (simp add: make_row_def Let_def)

lemma sum_rows_completed:
  "sum_num (map row_completedMinutes (report_rows s k cs)) =
   sum_num (map minutes_of (filter (counted k) cs))"
proof -
  have "map row_completedMinutes (report_rows s k cs) =
        map (\<lambda>e. completedMinutes (snd e)) (sort_key fst (studentStats s k cs))"
    by (simp add: report_rows_def row_completedMinutes_make_row)
  then show ?thesis
    by (simp add: sum_num_sort_key sum_completed_studentStats)
qed

lemma map_of_upd_stats:
  "map_of (upd_stats n f al) m =
     (if m = n then Some (f (case map_of al n of None \<Rightarrow> fresh_stats | Some st \<Rightarrow> st))
      else map_of al m)"
  by (induction al) auto

lemma keys_upd_stats:
  "map fst (upd_stats n f al) =
     (if n \<in> fst ` set al then map fst al else map fst al @ [n])"
  by (induction al) (auto simp: rev_image_eqI)

lemma distinct_upd_stats: "distinct (map fst al) \<Longrightarrow> distinct (map fst (upd_stats n f al))"
  by (simp add: keys_upd_stats)

lemma studentStats_snoc:
  "studentStats s k (cs @ [c]) = upd_stats (student c) (tally s k c) (studentStats s k cs)"
  by (simp add: studentStats_def)

lemma distinct_studentStats: "distinct (map fst (studentStats s k cs))"
  by (induction cs rule: rev_induct)
     (simp_all add: studentStats_snoc distinct_upd_stats, simp add: studentStats_def)

lemma entry_char:
  "(case map_of (studentStats s k cs) n of
      None \<Rightarrow> n \<notin> student ` set cs
    | Some st \<Rightarrow> completedMinutes st = sum_num (map minutes_of (completed_of k n cs)) \<and>
                paidMinutes st = sum_num (map minutes_of (paid_of s k n cs)))"
proof (induction cs rule: rev_induct)
  case Nil
  then show ?case by (simp add: studentStats_def)
next
  case (snoc c cs)
  show ?case
  proof (cases "student c = n")
    case False
    with snoc show ?thesis
      by (auto simp: studentStats_snoc map_of_upd_stats completed_of_def paid_of_def
               split: option.splits)
  next
    case True
    define st0 where "st0 = (case map_of (studentStats s k cs) n of
                               None \<Rightarrow> fresh_stats | Some st \<Rightarrow> st)"
    have st0: "completedMinutes st0 = sum_num (map minutes_of (completed_of k n cs))"
      "paidMinutes st0 = sum_num (map minutes_of (paid_of s k n cs))"
    proof -
      show "completedMinutes st0 = sum_num (map minutes_of (completed_of k n cs))"
      proof (cases "map_of (studentStats s k cs) n")
        case None
        with snoc have "n \<notin> student ` set cs" by simp
        then have "completed_of k n cs = []" by (auto simp: completed_of_def filter_empty_conv)
        with None show ?thesis by (simp add: st0_def fresh_stats_def sum_num_Nil)
      next
        case (Some st)
        with snoc show ?thesis by (simp add: st0_def)
      qed
      show "paidMinutes st0 = sum_num (map minutes_of (paid_of s k n cs))"
      proof (cases "map_of (studentStats s k cs) n")
        case None
        with snoc have "n \<notin> student ` set cs" by simp
        then have "paid_of s k n cs = []" by (auto simp: paid_of_def filter_empty_conv)
        with None show ?thesis by (simp add: st0_def fresh_stats_def sum_num_Nil)
      next
        case (Some st)
        with snoc show ?thesis by (simp add: st0_def)
      qed
    qed
    have "map_of (studentStats s k (cs @ [c])) n = Some (tally s k c st0)"
      using True by (simp add: studentStats_snoc map_of_upd_stats st0_def)
    moreover have "completedMinutes (tally s k c st0) =
        sum_num (map minutes_of (completed_of k n (cs @ [c])))"
      using True by (simp add: completedMinutes_tally st0 completed_of_def sum_num_snoc add_num_0)
    moreover have "paidMinutes (tally s k c st0) =
        sum_num (map minutes_of (paid_of s k n (cs @ [c])))"
      using True by (simp add: paidMinutes_tally st0 paid_of_def sum_num_snoc add_num_0)
    ultimately show ?thesis by simp
  qed
qed

lemma row_char:
  assumes "r \<in> set (report_rows s k cs)"
  shows "rate r = rate_of s (row_student r) \<and>
         amount r = amount_for (sum_num (map minutes_of (completed_of k (row_student r) cs))) (rate r) \<and>
         paidAmountForStudent r =
           amount_for (sum_num (map minutes_of (paid_of s k (row_student r) cs))) (rate r) \<and>
         unpaidAmount r = sub_num (amount r) (paidAmountForStudent r)"
proof -
  from assms obtain n st where e: "(n, st) \<in> set (studentStats s k cs)" and r: "r = make_row s (n, st)"
    by (auto simp: report_rows_def)
  from e have "map_of (studentStats s k cs) n = Some st"
    using distinct_studentStats[of s k cs] by simp
  with entry_char[where s = s and k = k and cs = cs and n = n]
  have "completedMinutes st = sum_num (map minutes_of (completed_of k n cs))"
       "paidMinutes st = sum_num (map minutes_of (paid_of s k n cs))"
    by simp_all
  then show ?thesis by (simp add: r make_row_def Let_def)
qed

lemma Math_round_minutes:
  "Math_round ((of_int m / 60) * of_int r) = (m * r + 30) div 60"
proof -
  have h: "(of_int m / 60) * of_int r + 1 / 2 = (of_int (m * r + 30) :: rat) / of_int 60"
    by (simp add: field_simps)
  have "Math_round ((of_int m / 60) * of_int r) = \<lfloor>(of_int (m * r + 30) :: rat) / of_int 60\<rfloor>"
    unfolding Math_round_def by (simp only: h)
  also have "\<dots> = (m * r + 30) div 60"
    by (rule floor_divide_of_int_eq)
  finally show ?thesis .
qed

lemma amount_for_Some: "amount_for (Some m) r = Some ((m * r + 30) div 60)"
  by (simp only: amount_for_def option.case Math_round_minutes)

lemma paid_subset: "set (paid_of s k n cs) \<subseteq> set (completed_of k n cs)"
  by (auto simp: paid_of_def completed_of_def)

lemma row_paid_plus_unpaid:
  assumes "r \<in> set (report_rows s k cs)"
  shows "add_num (paidAmountForStudent r) (unpaidAmount r) = amount r"
proof -
  let ?M = "sum_num (map minutes_of (completed_of k (row_student r) cs))"
  let ?P = "sum_num (map minutes_of (paid_of s k (row_student r) cs))"
  note rc = row_char[OF assms]
  have u: "unpaidAmount r = sub_num (amount r) (paidAmountForStudent r)"
    using rc by simp
  have "?P = None \<Longrightarrow> ?M = None"
    using paid_subset[where s = s and k = k and n = "row_student r" and cs = cs]
    by (auto simp: sum_num_None_iff)
  then have n: "paidAmountForStudent r = None \<Longrightarrow> amount r = None"
    using rc by (auto simp: amount_for_def split: option.splits)
  show ?thesis
  proof (cases "paidAmountForStudent r")
    case None
    with n show ?thesis by (simp add: add_num_def)
  next
    case (Some p)
    then show ?thesis
      by (cases "amount r") (simp_all add: u add_num_def sub_num_def)
  qed
qed

lemma wf_time_parses: "wf_time t \<Longrightarrow> \<exists>h m. parse_hm t = Some (h, m)"
  by (auto simp: wf_time_def split: option.splits)

lemma wf_minutes_of:
  assumes "wf_time (start c)" "wf_time (endt c)"
  shows "minutes_of c \<noteq> None"
  using wf_time_parses[OF assms(1)] wf_time_parses[OF assms(2)]
  by (auto simp: minutes_of_def getMinutesBetween_def)

lemma rows_numeric:
  assumes wf: "\<forall>c \<in> set cs. wf_time (start c) \<and> wf_time (endt c)"
    and r: "r \<in> set (report_rows s k cs)"
  shows "\<exists>a p. amount r = Some a \<and> paidAmountForStudent r = Some p \<and> unpaidAmount r = Some (a - p)"
proof -
  have "None \<notin> set (map minutes_of (completed_of k (row_student r) cs))"
    "None \<notin> set (map minutes_of (paid_of s k (row_student r) cs))"
    using wf wf_minutes_of by (fastforce simp: completed_of_def paid_of_def)+
  then obtain m p where "sum_num (map minutes_of (completed_of k (row_student r) cs)) = Some m"
    "sum_num (map minutes_of (paid_of s k (row_student r) cs)) = Some p"
    using sum_num_None_iff by (metis not_None_eq)
  with row_char[OF r] show ?thesis
    by (simp add: amount_for_def sub_num_def)
qed

lemma period_numeric:
  assumes wf: "\<forall>c \<in> set cs. wf_time (start c) \<and> wf_time (endt c)"
  shows "\<exists>m. periodMinutes (period_summary k cs) = Some m"
proof -
  have "None \<notin> set (map minutes_of (filter (counted k) cs))"
    using wf wf_minutes_of by fastforce
  then show ?thesis
    unfolding periodMinutes_summary using sum_num_None_iff by (metis not_None_eq)
qed

text \<open>
  Claim C7. In every report, the completed minutes of the rows of the students add up to
  the completed minutes of the period, and in every row the paid amount and the unpaid
  amount add up to the amount. Both equations are between numbers that may be \<^verbatim>\<open>NaN\<close>; when
  the times of all sessions in the period are well formed, the minutes and the three
  amounts of every row are numbers, and the unpaid amount is the amount less the paid one.
\<close>

theorem aggregation_conservation:
  "(case renderReport s k startStr endStr of (summary, rows, totalAmount, paidAmount) \<Rightarrow>
      sum_num (map row_completedMinutes rows) = periodMinutes summary \<and>
      (\<forall>r \<in> set rows. add_num (paidAmountForStudent r) (unpaidAmount r) = amount r) \<and>
      ((\<forall>c \<in> set (getClassesInRange s startStr endStr). wf_time (start c) \<and> wf_time (endt c)) \<longrightarrow>
         (\<exists>m. periodMinutes summary = Some m) \<and>
         (\<forall>r \<in> set rows. \<exists>a p. amount r = Some a \<and> paidAmountForStudent r = Some p \<and>
                                unpaidAmount r = Some (a - p))))"
  unfolding renderReport_def Let_def prod.case
  using row_paid_plus_unpaid[of _ s k "getClassesInRange s startStr endStr"]
    rows_numeric[of "getClassesInRange s startStr endStr" _ s k]
    period_numeric[of "getClassesInRange s startStr endStr" k]
  by (simp add: sum_rows_completed periodMinutes_summary)

lemma mins_examples:
  "getMinutesBetween ''09:00'' ''10:30'' = Some 90"
  "getMinutesBetween ''16:00'' ''16:45'' = Some 45"
  by code_simp+

lemmas report_eval =
  renderReport_def getClassesInRange_def period_summary_def count_class_def
  report_rows_def make_row_def studentStats_def tally_def Let_def
  new_session_def mins_examples fresh_stats_def sum_num_def
  add_num_def sub_num_def is_paid_def getClassPaymentId_def initial_app_def
  isClassCompleted_def truthy_def dayIndexMap_def rate_of_def amount_for_Some

text \<open>
  Kabir's 90 minutes and Meera's two sessions of 45 minutes, all completed on Wednesday:
  the rows hold 90 minutes each and the period 180.
\<close>

theorem aggregation_conservation_witness:
  "wf_time ''09:00'' \<and> wf_time ''10:30'' \<and> wf_time ''16:00'' \<and> wf_time ''16:45'' \<and>
   periodMinutes (fst (renderReport meera_app wednesday_noon ''2024-06-03'' ''2024-06-09'')) = Some 180 \<and>
   map row_completedMinutes (fst (snd (renderReport meera_app wednesday_noon ''2024-06-03'' ''2024-06-09'')))
     = [Some 90, Some 90] \<and>
   map (\<lambda>r. (amount r, paidAmountForStudent r, unpaidAmount r))
     (fst (snd (renderReport meera_app wednesday_noon ''2024-06-03'' ''2024-06-09'')))
     = [(Some 750, Some 0, Some 750), (Some 225, Some 113, Some 112)]"
proof -
  have w: "wf_time ''09:00''" "wf_time ''10:30''" "wf_time ''16:00''" "wf_time ''16:45''"
    by code_simp+
  have wf: "\<forall>c \<in> set (getClassesInRange meera_app ''2024-06-03'' ''2024-06-09'').
              wf_time (start c) \<and> wf_time (endt c)"
    by (simp add: getClassesInRange_def meera_app_def initial_app_def kabir_def meera_mon_def
          meera_tue_def new_session_def w)
  have 1: "fst (snd (renderReport meera_app wednesday_noon ''2024-06-03'' ''2024-06-09'')) =
     [\<lparr>row_student = ''Kabir'', row_completedMinutes = Some 90, rate = 500, amount = Some 750,
        paidAmountForStudent = Some 0, unpaidAmount = Some 750\<rparr>,
      \<lparr>row_student = ''Meera'', row_completedMinutes = Some 90, rate = 150, amount = Some 225,
        paidAmountForStudent = Some 113, unpaidAmount = Some 112\<rparr>]"
    by (simp add: report_eval meera_app_def wednesday_noon_def kabir_def meera_mon_def meera_tue_def)
  note th = aggregation_conservation[where s = meera_app and k = wednesday_noon
      and startStr = "''2024-06-03''" and endStr = "''2024-06-09''"]
  from th wf
  have "\<exists>m. periodMinutes (fst (renderReport meera_app wednesday_noon ''2024-06-03'' ''2024-06-09''))
          = Some m"
    by (simp add: case_prod_unfold)
  moreover from th
  have "sum_num (map row_completedMinutes
     (fst (snd (renderReport meera_app wednesday_noon ''2024-06-03'' ''2024-06-09'')))) =
     periodMinutes (fst (renderReport meera_app wednesday_noon ''2024-06-03'' ''2024-06-09''))"
    by (simp add: case_prod_unfold)
  ultimately
  have "periodMinutes (fst (renderReport meera_app wednesday_noon ''2024-06-03'' ''2024-06-09'')) = Some 180"
    by (simp add: 1 sum_num_def add_num_def)
  with 1 w show ?thesis by simp
qed




section \<open>Properties of the pending path\<close>

lemma check_creates:
  assumes "editingIndex s = None" and "fst (handleCheckWithStudent t f s) = Toast m"
  shows "\<exists>c. classes (snd (handleCheckWithStudent t f s)) = classes s @ [c] \<and> date c = None \<and>
             pendingConfirmation c \<and> student c = studentName f \<and> day c = daySelect f \<and>
             start c = startTimeInput f \<and> endt c = endTimeInput f"
  using assms
  by (auto simp: handleCheckWithStudent_def Let_def closeModal_def new_session_sel new_session_def
           split: if_splits)

lemma dateless_not_in_range:
  "date c = None \<Longrightarrow> c \<notin> set (getClassesInRange s a b)"
  by (auto simp: getClassesInRange_def)

lemma dateless_candidate:
  assumes "date c = None"
  shows "hasClash s c ex \<longleftrightarrow>
     (\<exists>i < length (classes s). ex \<noteq> Some i \<and> \<not> cancelled (classes s ! i) \<and>
        day (classes s ! i) = day c \<and>
        start c < endt (classes s ! i) \<and> start (classes s ! i) < endt c)"
  unfolding hasClash_iff using assms by (simp add: truthy_def)

lemma dateless_stored:
  assumes "date c = None"
  shows "clashes_with n ex (i, c) \<longleftrightarrow>
     ex \<noteq> Some i \<and> \<not> cancelled c \<and> \<not> truthy (date n) \<and> day c = day n \<and>
     start n < endt c \<and> start c < endt n"
  unfolding clashes_with_iff using assms by (auto simp: truthy_def split: option.splits)

lemma indexOf_range: "x \<in> set xs \<Longrightarrow> 0 \<le> indexOf xs x \<and> indexOf xs x < int (length xs)"
  by (induction xs) (auto simp: Let_def)

lemma migrate_dateless:
  assumes "date c = None" and "day c \<in> set DAYS"
  shows "date (migrate_class w c) = Some (w (indexOf DAYS (day c))) \<and>
         0 \<le> indexOf DAYS (day c) \<and> indexOf DAYS (day c) < 7"
proof -
  from indexOf_range[OF assms(2)] have r: "0 \<le> indexOf DAYS (day c)" "indexOf DAYS (day c) < 7"
    by (simp_all add: DAYS_def)
  then show ?thesis using assms(1) by (simp add: migrate_class_def truthy_def Let_def)
qed

text \<open>
  The check-with-student button stores Asha's pending session for Monday from 09:00 to
  10:00, without a date. A session for Riya on the Monday of the displayed week from 09:30
  to 10:30 is then submitted: it has the same weekday name and overlapping times, the
  detector reports no clash, and the form saves it.
\<close>

theorem pending_session_invisible_counterexample:
  "classes awaiting_asha = [pending_asha] \<and> date pending_asha = None \<and>
   \<not> cancelled pending_asha \<and> day pending_asha = day riya \<and> timesOverlap riya pending_asha \<and>
   \<not> hasClash awaiting_asha riya None \<and>
   handleFormSubmit week_of_june_3 riya_monday_form awaiting_asha =
     (Saved, (initial_app [pending_asha, riya]))"
  by (simp add: awaiting_asha_def handleCheckWithStudent_def handleFormSubmit_def asha_form_def
        riya_monday_form_def pending_asha_def legacy_asha_def riya_def studentName_def Let_def
        new_session_def hasClash_def clashes_with_def timesOverlap_def truthy_def
        initial_app_def closeModal_def DAYS_def week_of_june_3_def)

text \<open>
  Claim C10, amended. A session created by \<^verbatim>\<open>handleCheckWithStudent\<close> (no session being
  edited) is appended to the store without a date. A session without a date is in the
  result of no \<^verbatim>\<open>getClassesInRange\<close>. Offered as a candidate, it is compared with the stored
  sessions by weekday name and time alone; as a stored session, it is in conflict only with
  candidates that have no date either, by weekday name and time, and never with a candidate
  that carries a date. \<^verbatim>\<open>migrateClassesToDateFormat\<close> gives it the date of its weekday in
  the week that is current at that time.
\<close>

theorem check_with_student_dateless:
  "(editingIndex s = None \<and> fst (handleCheckWithStudent t f s) = Toast m \<longrightarrow>
      (\<exists>c. classes (snd (handleCheckWithStudent t f s)) = classes s @ [c] \<and> date c = None \<and>
           pendingConfirmation c \<and> student c = studentName f \<and> day c = daySelect f \<and>
           start c = startTimeInput f \<and> endt c = endTimeInput f)) \<and>
   (date c = None \<longrightarrow>
      c \<notin> set (getClassesInRange s' a b) \<and>
      (hasClash s' c ex \<longleftrightarrow>
         (\<exists>i < length (classes s'). ex \<noteq> Some i \<and> \<not> cancelled (classes s' ! i) \<and>
            day (classes s' ! i) = day c \<and>
            start c < endt (classes s' ! i) \<and> start (classes s' ! i) < endt c)) \<and>
      (hasClash (s'\<lparr>classes := [c]\<rparr>) n None \<longleftrightarrow>
         \<not> cancelled c \<and> \<not> truthy (date n) \<and> day c = day n \<and>
         start n < endt c \<and> start c < endt n) \<and>
      (day c \<in> set DAYS \<longrightarrow>
         date (migrate_class w c) = Some (w (indexOf DAYS (day c))) \<and>
         0 \<le> indexOf DAYS (day c) \<and> indexOf DAYS (day c) < 7))"
proof
  show "editingIndex s = None \<and> fst (handleCheckWithStudent t f s) = Toast m \<longrightarrow>
      (\<exists>c. classes (snd (handleCheckWithStudent t f s)) = classes s @ [c] \<and> date c = None \<and>
           pendingConfirmation c \<and> student c = studentName f \<and> day c = daySelect f \<and>
           start c = startTimeInput f \<and> endt c = endTimeInput f)"
    using check_creates by blast
  show "date c = None \<longrightarrow>
      c \<notin> set (getClassesInRange s' a b) \<and>
      (hasClash s' c ex \<longleftrightarrow>
         (\<exists>i < length (classes s'). ex \<noteq> Some i \<and> \<not> cancelled (classes s' ! i) \<and>
            day (classes s' ! i) = day c \<and>
            start c < endt (classes s' ! i) \<and> start (classes s' ! i) < endt c)) \<and>
      (hasClash (s'\<lparr>classes := [c]\<rparr>) n None \<longleftrightarrow>
         \<not> cancelled c \<and> \<not> truthy (date n) \<and> day c = day n \<and>
         start n < endt c \<and> start c < endt n) \<and>
      (day c \<in> set DAYS \<longrightarrow>
         date (migrate_class w c) = Some (w (indexOf DAYS (day c))) \<and>
         0 \<le> indexOf DAYS (day c) \<and> indexOf DAYS (day c) < 7)"
  proof
    assume d: "date c = None"
    have 1: "c \<notin> set (getClassesInRange s' a b)"
      using d by (rule dateless_not_in_range)
    have 2: "hasClash s' c ex \<longleftrightarrow>
         (\<exists>i < length (classes s'). ex \<noteq> Some i \<and> \<not> cancelled (classes s' ! i) \<and>
            day (classes s' ! i) = day c \<and>
            start c < endt (classes s' ! i) \<and> start (classes s' ! i) < endt c)"
      using d by (rule dateless_candidate)
    have 3: "hasClash (s'\<lparr>classes := [c]\<rparr>) n None \<longleftrightarrow>
         \<not> cancelled c \<and> \<not> truthy (date n) \<and> day c = day n \<and>
         start n < endt c \<and> start c < endt n"
      by (simp add: hasClash_def dateless_stored[OF d])
    have 4: "day c \<in> set DAYS \<longrightarrow>
         date (migrate_class w c) = Some (w (indexOf DAYS (day c))) \<and>
         0 \<le> indexOf DAYS (day c) \<and> indexOf DAYS (day c) < 7"
      using migrate_dateless[OF d] by blast
    from 1 2 3 4 show "c \<notin> set (getClassesInRange s' a b) \<and>
      (hasClash s' c ex \<longleftrightarrow>
         (\<exists>i < length (classes s'). ex \<noteq> Some i \<and> \<not> cancelled (classes s' ! i) \<and>
            day (classes s' ! i) = day c \<and>
            start c < endt (classes s' ! i) \<and> start (classes s' ! i) < endt c)) \<and>
      (hasClash (s'\<lparr>classes := [c]\<rparr>) n None \<longleftrightarrow>
         \<not> cancelled c \<and> \<not> truthy (date n) \<and> day c = day n \<and>
         start n < endt c \<and> start c < endt n) \<and>
      (day c \<in> set DAYS \<longrightarrow>
         date (migrate_class w c) = Some (w (indexOf DAYS (day c))) \<and>
         0 \<le> indexOf DAYS (day c) \<and> indexOf DAYS (day c) < 7)"
      by (intro conjI)
  qed
qed

text \<open>
  Asha's pending session: created on an empty planner, absent from the report of its week,
  missed by Riya's dated candidate, itself caught by Asha's stored session, and dated
  2024-06-03 by a migration in that week.
\<close>

theorem check_with_student_dateless_witness:
  "editingIndex (initial_app []) = None \<and>
   classes awaiting_asha = [pending_asha] \<and> date pending_asha = None \<and>
   getClassesInRange awaiting_asha ''2024-06-03'' ''2024-06-09'' = [] \<and>
   \<not> hasClash (initial_app [pending_asha]) riya None \<and>
   hasClash (initial_app [asha]) pending_asha None \<and>
   date (migrate_class week_of_june_3 pending_asha) = Some ''2024-06-03''"
proof -
  have e: "editingIndex (initial_app []) = None" by (simp add: initial_app_def)
  have t: "fst (handleCheckWithStudent ''2024-06-01T08:00:00.000Z'' asha_form (initial_app [])) =
           Toast ''WhatsApp opened - awaiting student confirmation''"
    by (simp add: handleCheckWithStudent_def asha_form_def studentName_def Let_def hasClash_def
          initial_app_def)
  have cl: "classes awaiting_asha = [pending_asha]"
    by (simp add: awaiting_asha_def handleCheckWithStudent_def asha_form_def studentName_def
          Let_def hasClash_def initial_app_def closeModal_def pending_asha_def legacy_asha_def
          new_session_def)
  have d: "date pending_asha = None" by (simp add: pending_asha_def legacy_asha_def new_session_def)
  have dy: "day pending_asha \<in> set DAYS"
    by (simp add: pending_asha_def legacy_asha_def new_session_def DAYS_def)
  note th = check_with_student_dateless[where c = pending_asha and s = "initial_app []"
      and t = "''2024-06-01T08:00:00.000Z''" and f = asha_form and w = week_of_june_3]
  have 1: "getClassesInRange awaiting_asha ''2024-06-03'' ''2024-06-09'' = []"
    using th[where s' = awaiting_asha and a = "''2024-06-03''" and b = "''2024-06-09''"] d cl
    by (simp add: getClassesInRange_def)
  have 2: "\<not> hasClash (initial_app [pending_asha]) riya None"
    using th[where s' = "initial_app []" and n = riya] d
    by (simp add: initial_app_def riya_def new_session_def truthy_def)
  have 3: "hasClash (initial_app [asha]) pending_asha None"
    using th[where s' = "initial_app [asha]" and ex = None] d
    by (simp add: initial_app_def asha_def pending_asha_def legacy_asha_def new_session_def)
  have 4: "date (migrate_class week_of_june_3 pending_asha) = Some ''2024-06-03''"
    using th d dy
    by (simp add: pending_asha_def legacy_asha_def new_session_def DAYS_def week_of_june_3_def)
  from e cl d 1 2 3 4 show ?thesis by blast
qed

end
